theory Spec2Isabelle
  imports Main
begin

section \<open>JavaScript values, the heap of source entities, and errors\<close>

text \<open>
  The module \<^verbatim>\<open>GroupListItem.js\<close> reads connections, connection groups and sharing
  profiles that live on the JavaScript heap and builds a tree of \<^verbatim>\<open>GroupListItem\<close>
  objects from them.

  Values. A JavaScript value is \<^verbatim>\<open>undefined\<close>, \<^verbatim>\<open>null\<close>, a boolean, a number (only the
  integers are represented: no fraction, no NaN), a string, a reference to a heap
  object, or a function. The functions are the ones this module creates (its two default
  accessors and the two \<^verbatim>\<open>getActiveConnections\<close> closures, each with the variables it
  captures) and functions from outside the module, which are opaque and named by a
  number.
\<close>

type_synonym addr = nat

datatype jsval =
    JUndefined
  | JNull
  | JBool bool
  | JNum int
  | JStr string
  | JRef addr
  | JFun fn
and fn =
    Extern nat
  | DefaultGetActiveConnections
  | DefaultGetClientIdentifier
  | ConnectionGetActiveConnections jsval jsval addr
  | GroupGetActiveConnections jsval jsval addr

text \<open>
  \<^verbatim>\<open>ConnectionGetActiveConnections c ds a\<close> is the closure of lines 200-205 with the
  captured \<^verbatim>\<open>countActiveConnections = c\<close>, \<^verbatim>\<open>dataSource = ds\<close> and \<^verbatim>\<open>connection\<close> the
  object at address \<open>a\<close>; \<^verbatim>\<open>GroupGetActiveConnections\<close> is the closure of lines 290-296.
  None of the captured variables is ever assigned again, so capturing their values is
  capturing the variables.
\<close>

text \<open>What \<^verbatim>\<open>if (v)\<close>, \<^verbatim>\<open>v && ...\<close> and \<^verbatim>\<open>v || ...\<close> test.\<close>

fun truthy :: "jsval \<Rightarrow> bool" where
  "truthy JUndefined = False"
| "truthy JNull = False"
| "truthy (JBool b) = b"
| "truthy (JNum n) = (n \<noteq> 0)"
| "truthy (JStr s) = (s \<noteq> [])"
| "truthy (JRef a) = True"
| "truthy (JFun f) = True"

text \<open>
  Heap objects. The source entities are plain objects (a finite map from property names
  to values) and arrays of entity references (\<^verbatim>\<open>SharingProfile[]\<close>, \<^verbatim>\<open>Connection[]\<close>,
  \<^verbatim>\<open>ConnectionGroup[]\<close> in the documented types). Every address holds an object: a
  JavaScript reference never dangles.
\<close>

datatype obj =
    Obj "string \<rightharpoonup> jsval"
  | Arr "addr list"

record state =
  heap :: "addr \<Rightarrow> obj"
  console :: "jsval list list"

datatype error = TypeError | RangeError

text \<open>
  \<^verbatim>\<open>o.p\<close> for the object at address \<open>a\<close>: a property that is absent reads as
  \<^verbatim>\<open>undefined\<close>. The module reads only the properties \<^verbatim>\<open>name\<close>, \<^verbatim>\<open>identifier\<close>,
  \<^verbatim>\<open>protocol\<close>, \<^verbatim>\<open>type\<close>, \<^verbatim>\<open>activeConnections\<close>, \<^verbatim>\<open>sharingProfiles\<close>,
  \<^verbatim>\<open>childConnections\<close> and \<^verbatim>\<open>childConnectionGroups\<close>, none of which an array has.
\<close>

definition getProp :: "state \<Rightarrow> addr \<Rightarrow> string \<Rightarrow> jsval" where
  "getProp s a p =
     (case heap s a of
        Obj m \<Rightarrow> (case m p of Some v \<Rightarrow> v | None \<Rightarrow> JUndefined)
      | Arr xs \<Rightarrow> JUndefined)"

definition console_log :: "jsval list \<Rightarrow> state \<Rightarrow> state" where
  "console_log args s = s\<lparr>console := console s @ [args]\<rparr>"

section \<open>GroupListItem\<close>

text \<open>
  The \<^verbatim>\<open>children\<close> of an item are an array of items, or whatever other truthy value a
  template supplied. The fields of an item are named as in the source, except
  \<open>identifier'\<close> (\<open>identifier\<close> is a reserved word here); a parameter or local variable
  of the source whose name is also the name of a field carries a prime
  (\<open>dataSource'\<close>, \<open>children'\<close>).
\<close>

datatype 'a children = Items "'a list" | Other jsval

datatype groupListItem =
  Item
    (dataSource: jsval)
    (identifier': jsval)
    (name: jsval)
    (protocol: jsval)
    (children: "groupListItem children")
    (type: jsval)
    (expandable: jsval)
    (balancing: jsval)
    (expanded: jsval)
    (getActiveConnections: jsval)
    (getClientIdentifier: jsval)
    (wrappedItem: jsval)
    (weight: jsval)

text \<open>
  The template object handed to the constructor: the same properties, each
  \<^verbatim>\<open>undefined\<close> when the object literal does not set it.
\<close>

record template =
  t_dataSource :: jsval
  t_identifier :: jsval
  t_name :: jsval
  t_protocol :: jsval
  t_children :: "groupListItem children"
  t_type :: jsval
  t_expandable :: jsval
  t_balancing :: jsval
  t_expanded :: jsval
  t_getActiveConnections :: jsval
  t_getClientIdentifier :: jsval
  t_wrappedItem :: jsval
  t_weight :: jsval

text \<open>The empty object literal \<^verbatim>\<open>{}\<close>.\<close>

definition empty_template :: template where
  "empty_template =
     \<lparr> t_dataSource = JUndefined, t_identifier = JUndefined, t_name = JUndefined,
       t_protocol = JUndefined, t_children = Other JUndefined, t_type = JUndefined,
       t_expandable = JUndefined, t_balancing = JUndefined, t_expanded = JUndefined,
       t_getActiveConnections = JUndefined, t_getClientIdentifier = JUndefined,
       t_wrappedItem = JUndefined, t_weight = JUndefined \<rparr>"

fun truthy_children :: "'a children \<Rightarrow> bool" where
  "truthy_children (Items xs) = True"
| "truthy_children (Other v) = truthy v"

text \<open>
  The constructor, lines 4-144. Its argument is \<open>None\<close> when the caller passes no
  template (or a falsy one): \<^verbatim>\<open>template = template || {}\<close>.
\<close>

definition GroupListItem :: "template option \<Rightarrow> groupListItem" where
  "GroupListItem template0 =
     (let template = (case template0 of Some t \<Rightarrow> t | None \<Rightarrow> empty_template) in
      Item
        (t_dataSource template)
        (t_identifier template)
        (t_name template)
        (t_protocol template)
        (if truthy_children (t_children template) then t_children template else Items [])
        (t_type template)
        (t_expandable template)
        (t_balancing template)
        (t_expanded template)
        (if truthy (t_getActiveConnections template) then t_getActiveConnections template
         else JFun DefaultGetActiveConnections)
        (if truthy (t_getClientIdentifier template) then t_getClientIdentifier template
         else JFun DefaultGetClientIdentifier)
        (t_wrappedItem template)
        (if truthy (t_weight template) then t_weight template else JNum 0))"

text \<open>\<^verbatim>\<open>GroupListItem.Type\<close>, lines 346-372.\<close>

definition CONNECTION :: string where "CONNECTION = ''connection''"
definition CONNECTION_GROUP :: string where "CONNECTION_GROUP = ''connection-group''"
definition SHARING_PROFILE :: string where "SHARING_PROFILE = ''sharing-profile''"

section \<open>Collaborators outside the module\<close>

text \<open>
  A computation in the heap returns a value and the state it leaves, or raises.
\<close>

type_synonym 'a result = "error + 'a \<times> state"

text \<open>
  The module imports \<^verbatim>\<open>ClientIdentifier\<close> and \<^verbatim>\<open>ConnectionGroup\<close>, and is handed counter
  functions by its callers. None of them is part of the module, so they are parameters:
  the string \<^verbatim>\<open>ConnectionGroup.Type.BALANCING\<close>, the two constants of
  \<^verbatim>\<open>ClientIdentifier.Types\<close>, \<^verbatim>\<open>ClientIdentifier.toString\<close> (given the \<^verbatim>\<open>dataSource\<close>,
  \<^verbatim>\<open>type\<close> and \<^verbatim>\<open>id\<close> of its argument), and the behaviour of each outside function when
  it is called with a \<^verbatim>\<open>this\<close> (an item, or none) and a list of arguments. An outside
  function may change the state and may raise.
\<close>

record env =
  BALANCING :: string
  ClientIdentifier_CONNECTION :: jsval
  ClientIdentifier_CONNECTION_GROUP :: jsval
  ClientIdentifier_toString :: "jsval \<Rightarrow> jsval \<Rightarrow> jsval \<Rightarrow> state \<Rightarrow> jsval result"
  extern :: "nat \<Rightarrow> groupListItem option \<Rightarrow> jsval list \<Rightarrow> state \<Rightarrow> jsval result"

section \<open>Calling a function value\<close>

text \<open>
  \<open>call env f this args s\<close> is the call of the value \<open>f\<close>; calling a value that is not
  a function raises a TypeError. The bodies are those of the source:
  \<^item> the default \<^verbatim>\<open>getActiveConnections\<close>, lines 88-90;
  \<^item> the default \<^verbatim>\<open>getClientIdentifier\<close>, lines 102-123, which reads \<^verbatim>\<open>this.type\<close>,
    \<^verbatim>\<open>this.dataSource\<close> and \<^verbatim>\<open>this.identifier\<close> when it is called (the module is an ES
    module, hence strict: without a receiver \<^verbatim>\<open>this\<close> is \<^verbatim>\<open>undefined\<close> and the read
    raises);
  \<^item> the closure of \<^verbatim>\<open>fromConnection\<close>, lines 200-205;
  \<^item> the closure of \<^verbatim>\<open>fromConnectionGroup\<close>, lines 290-296, which first writes to the
    console.
\<close>

fun call :: "env \<Rightarrow> jsval \<Rightarrow> groupListItem option \<Rightarrow> jsval list \<Rightarrow> state \<Rightarrow> jsval result" where
  "call env (JFun (Extern n)) this args s = extern env n this args s"
| "call env (JFun DefaultGetActiveConnections) this args s = Inr (JNull, s)"
| "call env (JFun DefaultGetClientIdentifier) this args s =
     (case this of
        None \<Rightarrow> Inl TypeError
      | Some item \<Rightarrow>
          if type item = JStr CONNECTION then
            ClientIdentifier_toString env (dataSource item)
              (ClientIdentifier_CONNECTION env) (identifier' item) s
          else if type item = JStr CONNECTION_GROUP then
            ClientIdentifier_toString env (dataSource item)
              (ClientIdentifier_CONNECTION_GROUP env) (identifier' item) s
          else Inr (JNull, s))"
| "call env (JFun (ConnectionGetActiveConnections countActiveConnections dataSource' connection))
        this args s =
     (if truthy countActiveConnections
      then call env countActiveConnections None [dataSource', JRef connection] s
      else Inr (getProp s connection ''activeConnections'', s))"
| "call env (JFun (GroupGetActiveConnections countActiveConnectionGroups dataSource'
        connectionGroup)) this args s =
     (let s1 = console_log [JStr ''getActiveConnections''] s in
      if truthy countActiveConnectionGroups
      then call env countActiveConnectionGroups None [dataSource', JRef connectionGroup] s1
      else Inr (getProp s1 connectionGroup ''activeConnections'', s1))"
| "call env JUndefined this args s = Inl TypeError"
| "call env JNull this args s = Inl TypeError"
| "call env (JBool b) this args s = Inl TypeError"
| "call env (JNum n) this args s = Inl TypeError"
| "call env (JStr x) this args s = Inl TypeError"
| "call env (JRef a) this args s = Inl TypeError"

text \<open>The method calls \<^verbatim>\<open>item.getActiveConnections()\<close> and \<^verbatim>\<open>item.getClientIdentifier()\<close>.\<close>

definition invoke_getActiveConnections :: "env \<Rightarrow> groupListItem \<Rightarrow> state \<Rightarrow> jsval result" where
  "invoke_getActiveConnections env item s = call env (getActiveConnections item) (Some item) [] s"

definition invoke_getClientIdentifier :: "env \<Rightarrow> groupListItem \<Rightarrow> state \<Rightarrow> jsval result" where
  "invoke_getClientIdentifier env item s = call env (getClientIdentifier item) (Some item) [] s"

section \<open>The three builders\<close>

text \<open>
  \<^verbatim>\<open>xs.forEach(function (child) { children.push(f(child)); })\<close>: the elements are
  visited from the first to the last, each result is appended to \<^verbatim>\<open>children\<close>, and an
  exception ends the loop. \<^verbatim>\<open>forEach\<close> exists on arrays only: on any other value the
  call raises a TypeError (plain objects are taken not to define a \<^verbatim>\<open>forEach\<close> of their
  own).
\<close>

fun forEach_push ::
  "(addr \<Rightarrow> state \<Rightarrow> 'a result) \<Rightarrow> addr list \<Rightarrow> 'a list \<Rightarrow> state \<Rightarrow> 'a list result" where
  "forEach_push f [] children' s = Inr (children', s)"
| "forEach_push f (child # rest) children' s =
     (case f child s of
        Inl e \<Rightarrow> Inl e
      | Inr (item, s') \<Rightarrow> forEach_push f rest (children' @ [item]) s')"

definition forEach ::
  "jsval \<Rightarrow> (addr \<Rightarrow> state \<Rightarrow> 'a result) \<Rightarrow> 'a list \<Rightarrow> state \<Rightarrow> 'a list result" where
  "forEach v f children' s =
     (case v of
        JRef a \<Rightarrow> (case heap s a of Arr xs \<Rightarrow> forEach_push f xs children' s | Obj m \<Rightarrow> Inl TypeError)
      | _ \<Rightarrow> Inl TypeError)"

text \<open>
  \<^verbatim>\<open>fromSharingProfile\<close>, lines 319-336. It has two parameters; the third argument that
  \<^verbatim>\<open>fromConnection\<close> passes to it is ignored.
\<close>

definition fromSharingProfile :: "jsval \<Rightarrow> addr \<Rightarrow> state \<Rightarrow> groupListItem result" where
  "fromSharingProfile dataSource' sharingProfile s =
     Inr (GroupListItem (Some (empty_template
            \<lparr> t_name := getProp s sharingProfile ''name'',
              t_identifier := getProp s sharingProfile ''identifier'',
              t_dataSource := dataSource',
              t_type := JStr SHARING_PROFILE,
              t_wrappedItem := JRef sharingProfile \<rparr>)), s)"

text \<open>\<^verbatim>\<open>fromConnection\<close>, lines 171-211.\<close>

definition fromConnection ::
  "jsval \<Rightarrow> addr \<Rightarrow> jsval \<Rightarrow> jsval \<Rightarrow> state \<Rightarrow> groupListItem result" where
  "fromConnection dataSource' connection includeSharingProfiles countActiveConnections s =
     (case (if truthy (getProp s connection ''sharingProfiles'')
               \<and> includeSharingProfiles \<noteq> JBool False
            then forEach (getProp s connection ''sharingProfiles'')
                   (\<lambda>child. fromSharingProfile dataSource' child) [] s
            else Inr ([], s)) of
        Inl e \<Rightarrow> Inl e
      | Inr (children', s1) \<Rightarrow>
          Inr (GroupListItem (Some (empty_template
                 \<lparr> t_name := getProp s1 connection ''name'',
                   t_identifier := getProp s1 connection ''identifier'',
                   t_protocol := getProp s1 connection ''protocol'',
                   t_dataSource := dataSource',
                   t_expandable := JBool (includeSharingProfiles \<noteq> JBool False),
                   t_type := JStr CONNECTION,
                   t_children := Items children',
                   t_getActiveConnections :=
                     JFun (ConnectionGetActiveConnections countActiveConnections dataSource'
                             connection),
                   t_wrappedItem := JRef connection \<rparr>)), s1))"

text \<open>
  \<^verbatim>\<open>fromConnectionGroup\<close>, lines 251-302. The function calls itself on every child
  group, and nothing in it stops on a heap in which a group is its own descendant. The
  first argument bounds the depth of these nested calls; when it is used up the result
  is the RangeError with which a JavaScript engine ends a recursion that exceeds its
  stack.
\<close>

fun fromConnectionGroup ::
  "nat \<Rightarrow> env \<Rightarrow> jsval \<Rightarrow> addr \<Rightarrow> jsval \<Rightarrow> jsval \<Rightarrow> jsval \<Rightarrow> jsval \<Rightarrow> state
     \<Rightarrow> groupListItem result" where
  "fromConnectionGroup 0 env dataSource' connectionGroup includeConnections
       includeSharingProfiles countActiveConnections countActiveConnectionGroups s =
     Inl RangeError"
| "fromConnectionGroup (Suc depth) env dataSource' connectionGroup includeConnections
       includeSharingProfiles countActiveConnections countActiveConnectionGroups s =
     (case (if truthy (getProp s connectionGroup ''childConnections'')
               \<and> includeConnections \<noteq> JBool False
            then forEach (getProp s connectionGroup ''childConnections'')
                   (\<lambda>child. fromConnection dataSource' child includeSharingProfiles
                              countActiveConnections) [] s
            else Inr ([], s)) of
        Inl e \<Rightarrow> Inl e
      | Inr (children1, s1) \<Rightarrow>
          (case (if truthy (getProp s1 connectionGroup ''childConnectionGroups'')
                 then forEach (getProp s1 connectionGroup ''childConnectionGroups'')
                        (\<lambda>child. fromConnectionGroup depth env dataSource' child
                                   includeConnections includeSharingProfiles
                                   countActiveConnections countActiveConnectionGroups)
                        children1 s1
                 else Inr (children1, s1)) of
             Inl e \<Rightarrow> Inl e
           | Inr (children2, s2) \<Rightarrow>
               Inr (GroupListItem (Some (empty_template
                      \<lparr> t_name := getProp s2 connectionGroup ''name'',
                        t_identifier := getProp s2 connectionGroup ''identifier'',
                        t_dataSource := dataSource',
                        t_type := JStr CONNECTION_GROUP,
                        t_balancing :=
                          JBool (getProp s2 connectionGroup ''type'' = JStr (BALANCING env)),
                        t_expandable := JBool True,
                        t_children := Items children2,
                        t_getActiveConnections :=
                          JFun (GroupGetActiveConnections countActiveConnectionGroups
                                  dataSource' connectionGroup),
                        t_wrappedItem := JRef connectionGroup \<rparr>)), s2)))"

section \<open>A small heap to run the builders on\<close>

text \<open>
  A root group (address 10) with one child connection (13) and one child group (14);
  the connection has two sharing profiles (16 and 17); the child group is a balancing
  group without children. The arrays are at 11, 12 and 15.
\<close>

definition example_heap :: "addr \<Rightarrow> obj" where
  "example_heap = (\<lambda>a. Obj Map.empty)
     (10 := Obj [''name'' \<mapsto> JStr ''Root'', ''identifier'' \<mapsto> JStr ''ROOT'',
                ''type'' \<mapsto> JStr ''ORGANIZATIONAL'',
                ''childConnections'' \<mapsto> JRef 11, ''childConnectionGroups'' \<mapsto> JRef 12],
      11 := Arr [13],
      12 := Arr [14],
      13 := Obj [''name'' \<mapsto> JStr ''pc'', ''identifier'' \<mapsto> JStr ''1'',
                ''protocol'' \<mapsto> JStr ''vnc'', ''activeConnections'' \<mapsto> JNum 2,
                ''sharingProfiles'' \<mapsto> JRef 15],
      14 := Obj [''name'' \<mapsto> JStr ''pool'', ''identifier'' \<mapsto> JStr ''2'',
                ''type'' \<mapsto> JStr ''BALANCING'', ''activeConnections'' \<mapsto> JNum 0],
      15 := Arr [16, 17],
      16 := Obj [''identifier'' \<mapsto> JStr ''5'', ''name'' \<mapsto> JStr ''X''],
      17 := Obj [''identifier'' \<mapsto> JStr ''6'', ''name'' \<mapsto> JStr ''Y''])"

definition example_state :: state where
  "example_state = \<lparr> heap = example_heap, console = [] \<rparr>"

definition example_env :: env where
  "example_env =
     \<lparr> BALANCING = ''BALANCING'',
       ClientIdentifier_CONNECTION = JStr ''c'',
       ClientIdentifier_CONNECTION_GROUP = JStr ''g'',
       ClientIdentifier_toString = (\<lambda>ds t i s. Inr (JStr ''encoded'', s)),
       extern = (\<lambda>n this args s. Inr (JNum (int n + 40), s)) \<rparr>"

text \<open>
  The same heap after the connection and the child group have changed their
  \<^verbatim>\<open>activeConnections\<close>.
\<close>

definition later_state :: state where
  "later_state = example_state
     \<lparr> heap := (heap example_state)
         (13 := Obj [''name'' \<mapsto> JStr ''pc'', ''identifier'' \<mapsto> JStr ''1'',
                    ''protocol'' \<mapsto> JStr ''vnc'', ''activeConnections'' \<mapsto> JNum 7,
                    ''sharingProfiles'' \<mapsto> JRef 15],
          14 := Obj [''name'' \<mapsto> JStr ''pool'', ''identifier'' \<mapsto> JStr ''2'',
                    ''type'' \<mapsto> JStr ''BALANCING'', ''activeConnections'' \<mapsto> JNum 3]) \<rparr>"

text \<open>
  An item of a custom type, made by a caller that hands the constructor its own
  \<^verbatim>\<open>getClientIdentifier\<close> (an outside function).
\<close>

definition custom_item :: groupListItem where
  "custom_item = GroupListItem (Some (empty_template
     \<lparr> t_type := JStr ''custom'', t_getClientIdentifier := JFun (Extern 0) \<rparr>))"

section \<open>Inputs of the documented shape\<close>

text \<open>
  The documented types give a connection an optional array \<^verbatim>\<open>sharingProfiles\<close> and a
  group optional arrays \<^verbatim>\<open>childConnections\<close> and \<^verbatim>\<open>childConnectionGroups\<close>, the groups
  forming a tree. \<open>elements s v\<close> are the elements of such an optional collection: none
  when \<open>v\<close> is falsy, and undefined (\<open>None\<close>) when \<open>v\<close> is truthy and not an array.
  \<open>wellFormedGroup n s g\<close> says that the groups below \<open>g\<close> form a tree of fewer than \<open>n\<close>
  levels below the root, all collections being of that shape.
\<close>

definition elements :: "state \<Rightarrow> jsval \<Rightarrow> addr list option" where
  "elements s v =
     (if \<not> truthy v then Some []
      else case v of
             JRef a \<Rightarrow> (case heap s a of Arr xs \<Rightarrow> Some xs | Obj m \<Rightarrow> None)
           | _ \<Rightarrow> None)"

definition wellFormedConnection :: "state \<Rightarrow> addr \<Rightarrow> bool" where
  "wellFormedConnection s c = (elements s (getProp s c ''sharingProfiles'') \<noteq> None)"

fun wellFormedGroup :: "nat \<Rightarrow> state \<Rightarrow> addr \<Rightarrow> bool" where
  "wellFormedGroup 0 s g = False"
| "wellFormedGroup (Suc n) s g =
     (case elements s (getProp s g ''childConnections'') of
        None \<Rightarrow> False
      | Some cs \<Rightarrow>
          (\<forall>c \<in> set cs. wellFormedConnection s c)
          \<and> (case elements s (getProp s g ''childConnectionGroups'') of
               None \<Rightarrow> False
             | Some gs \<Rightarrow> (\<forall>child \<in> set gs. wellFormedGroup n s child)))"

section \<open>Facts shared by the proofs\<close>

lemmas item_fields =
  GroupListItem_def empty_template_def Let_def

lemma example_props:
  "getProp example_state 10 ''childConnections'' = JRef 11"
  "getProp example_state 10 ''childConnectionGroups'' = JRef 12"
  "getProp example_state 13 ''sharingProfiles'' = JRef 15"
  "getProp example_state 14 ''childConnections'' = JUndefined"
  "getProp example_state 14 ''childConnectionGroups'' = JUndefined"
  "getProp example_state 14 ''type'' = JStr ''BALANCING''"
  "getProp example_state 10 ''type'' = JStr ''ORGANIZATIONAL''"
  "heap example_state 11 = Arr [13]"
  "heap example_state 12 = Arr [14]"
  "heap example_state 15 = Arr [16, 17]"
  by (simp_all add: getProp_def example_state_def example_heap_def)

text \<open>
  A loop whose callback leaves the state as it found it leaves the state as it found
  it, and appends one result for each element, in the order of the elements.
\<close>

lemma forEach_push_Inr:
  assumes f: "\<forall>x y t. f x s = Inr (y, t) \<longrightarrow> t = s"
    and run: "forEach_push f xs acc s = Inr (r, s')"
  shows "s' = s \<and> (\<exists>ys. r = acc @ ys \<and> list_all2 (\<lambda>x y. f x s = Inr (y, s)) xs ys)"
  using run
proof (induction xs arbitrary: acc)
  case Nil
  then show ?case by simp
next
  case (Cons x xs)
  from Cons.prems obtain y t where fx: "f x s = Inr (y, t)"
    and rest: "forEach_push f xs (acc @ [y]) t = Inr (r, s')"
    by (auto split: sum.splits)
  from f fx have t: "t = s" by blast
  from Cons.IH [of "acc @ [y]"] rest t
  obtain ys where "s' = s" "r = (acc @ [y]) @ ys" "list_all2 (\<lambda>x y. f x s = Inr (y, s)) xs ys"
    by auto
  with fx t show ?case by (intro conjI exI [of _ "y # ys"]) auto
qed

lemma forEach_Inr:
  assumes f: "\<forall>x y t. f x s = Inr (y, t) \<longrightarrow> t = s"
    and run: "forEach v f acc s = Inr (r, s')"
  shows "\<exists>a xs ys. v = JRef a \<and> heap s a = Arr xs \<and> s' = s \<and> r = acc @ ys
            \<and> list_all2 (\<lambda>x y. f x s = Inr (y, s)) xs ys"
proof -
  from run obtain a xs where v: "v = JRef a" and h: "heap s a = Arr xs"
    and p: "forEach_push f xs acc s = Inr (r, s')"
    by (auto simp: forEach_def split: jsval.splits obj.splits)
  from forEach_push_Inr [OF f p] v h show ?thesis by blast
qed

lemma fromSharingProfile_state:
  "fromSharingProfile ds p s = Inr (item, s') \<Longrightarrow> s' = s"
  by (auto simp: fromSharingProfile_def)

lemma fromConnection_state:
  assumes "fromConnection ds c isp cc s = Inr (item, s')"
  shows "s' = s"
proof (cases "truthy (getProp s c ''sharingProfiles'') \<and> isp \<noteq> JBool False")
  case True
  with assms obtain r s1 where
    run: "forEach (getProp s c ''sharingProfiles'') (\<lambda>child. fromSharingProfile ds child) [] s = Inr (r, s1)"
    and s': "s' = s1"
    by (auto simp: fromConnection_def split: sum.splits)
  have "\<forall>x y t. fromSharingProfile ds x s = Inr (y, t) \<longrightarrow> t = s"
    by (simp add: fromSharingProfile_state)
  from forEach_Inr [OF this run] have "s1 = s" by blast
  with s' show ?thesis by simp
next
  case False
  with assms show ?thesis by (auto simp: fromConnection_def)
qed

lemma fromConnectionGroup_Suc_Inr:
  assumes "fromConnectionGroup (Suc depth) env ds g ic isp cc ccg s = Inr (item, s')"
  shows "\<exists>c1 s1 c2.
      (if truthy (getProp s g ''childConnections'') \<and> ic \<noteq> JBool False
       then forEach (getProp s g ''childConnections'')
              (\<lambda>child. fromConnection ds child isp cc) [] s
       else Inr ([], s)) = Inr (c1, s1)
    \<and> (if truthy (getProp s1 g ''childConnectionGroups'')
       then forEach (getProp s1 g ''childConnectionGroups'')
              (\<lambda>child. fromConnectionGroup depth env ds child ic isp cc ccg) c1 s1
       else Inr (c1, s1)) = Inr (c2, s')
    \<and> item = GroupListItem (Some (empty_template
          \<lparr> t_name := getProp s' g ''name'',
            t_identifier := getProp s' g ''identifier'',
            t_dataSource := ds,
            t_type := JStr CONNECTION_GROUP,
            t_balancing := JBool (getProp s' g ''type'' = JStr (BALANCING env)),
            t_expandable := JBool True,
            t_children := Items c2,
            t_getActiveConnections := JFun (GroupGetActiveConnections ccg ds g),
            t_wrappedItem := JRef g \<rparr>))"
proof -
  let ?A = "if truthy (getProp s g ''childConnections'') \<and> ic \<noteq> JBool False
       then forEach (getProp s g ''childConnections'')
              (\<lambda>child. fromConnection ds child isp cc) [] s
       else Inr ([], s)"
  obtain c1 s1 where A: "?A = Inr (c1, s1)"
  proof (cases ?A)
    case (Inl e)
    with assms show ?thesis by (simp only: fromConnectionGroup.simps sum.case) simp
  next
    case (Inr p)
    with that show ?thesis by (cases p) blast
  qed
  let ?B = "if truthy (getProp s1 g ''childConnectionGroups'')
       then forEach (getProp s1 g ''childConnectionGroups'')
              (\<lambda>child. fromConnectionGroup depth env ds child ic isp cc ccg) c1 s1
       else Inr (c1, s1)"
  from assms A have B': "(case ?B of Inl e \<Rightarrow> Inl e | Inr (c2, s2) \<Rightarrow>
      Inr (GroupListItem (Some (empty_template
          \<lparr> t_name := getProp s2 g ''name'',
            t_identifier := getProp s2 g ''identifier'',
            t_dataSource := ds,
            t_type := JStr CONNECTION_GROUP,
            t_balancing := JBool (getProp s2 g ''type'' = JStr (BALANCING env)),
            t_expandable := JBool True,
            t_children := Items c2,
            t_getActiveConnections := JFun (GroupGetActiveConnections ccg ds g),
            t_wrappedItem := JRef g \<rparr>)), s2)) = Inr (item, s')"
    by (simp only: fromConnectionGroup.simps sum.case prod.case)
  obtain c2 s2 where B: "?B = Inr (c2, s2)"
  proof (cases ?B)
    case (Inl e)
    with B' show ?thesis by (simp only: sum.case) simp
  next
    case (Inr p)
    with that show ?thesis by (cases p) blast
  qed
  from B' B have "s2 = s'" and "item = GroupListItem (Some (empty_template
          \<lparr> t_name := getProp s2 g ''name'',
            t_identifier := getProp s2 g ''identifier'',
            t_dataSource := ds,
            t_type := JStr CONNECTION_GROUP,
            t_balancing := JBool (getProp s2 g ''type'' = JStr (BALANCING env)),
            t_expandable := JBool True,
            t_children := Items c2,
            t_getActiveConnections := JFun (GroupGetActiveConnections ccg ds g),
            t_wrappedItem := JRef g \<rparr>))"
    by (auto simp only: sum.case prod.case sum.inject prod.inject)
  with A B show ?thesis by (intro exI [of _ c1] exI [of _ s1] exI [of _ c2]) simp
qed

lemma fromConnectionGroup_state:
  "fromConnectionGroup depth env ds g ic isp cc ccg s = Inr (item, s') \<Longrightarrow> s' = s"
proof (induction depth arbitrary: g item s')
  case 0
  then show ?case by simp
next
  case (Suc depth)
  from fromConnectionGroup_Suc_Inr [OF Suc.prems] obtain c1 s1 c2 where
    one: "(if truthy (getProp s g ''childConnections'') \<and> ic \<noteq> JBool False
       then forEach (getProp s g ''childConnections'')
              (\<lambda>child. fromConnection ds child isp cc) [] s
       else Inr ([], s)) = Inr (c1, s1)"
    and two: "(if truthy (getProp s1 g ''childConnectionGroups'')
       then forEach (getProp s1 g ''childConnectionGroups'')
              (\<lambda>child. fromConnectionGroup depth env ds child ic isp cc ccg) c1 s1
       else Inr (c1, s1)) = Inr (c2, s')"
    by blast
  have fc: "\<forall>x y t. fromConnection ds x isp cc s = Inr (y, t) \<longrightarrow> t = s"
    by (simp add: fromConnection_state)
  have s1: "s1 = s"
  proof (cases "truthy (getProp s g ''childConnections'') \<and> ic \<noteq> JBool False")
    case True
    with one have "forEach (getProp s g ''childConnections'')
              (\<lambda>child. fromConnection ds child isp cc) [] s = Inr (c1, s1)" by simp
    from forEach_Inr [of "\<lambda>child. fromConnection ds child isp cc" s, OF fc this]
    show ?thesis by blast
  next
    case False
    with one show ?thesis by auto
  qed
  have fg: "\<forall>x y t. fromConnectionGroup depth env ds x ic isp cc ccg s = Inr (y, t) \<longrightarrow> t = s"
    using Suc.IH by blast
  show ?case
  proof (cases "truthy (getProp s g ''childConnectionGroups'')")
    case True
    with two s1 have "forEach (getProp s g ''childConnectionGroups'')
              (\<lambda>child. fromConnectionGroup depth env ds child ic isp cc ccg) c1 s = Inr (c2, s')"
      by simp
    from forEach_Inr [of "\<lambda>child. fromConnectionGroup depth env ds child ic isp cc ccg" s,
        OF fg this]
    show ?thesis by blast
  next
    case False
    with two s1 show ?thesis by auto
  qed
qed

text \<open>A group without child collections is built at any positive depth.\<close>

lemma fromConnectionGroup_leaf:
  assumes "\<not> truthy (getProp s g ''childConnections'')"
    and "\<not> truthy (getProp s g ''childConnectionGroups'')"
  shows "\<exists>item. fromConnectionGroup (Suc depth) env ds g ic isp cc ccg s = Inr (item, s)"
  using assms by simp

lemma getProp_console_log [simp]: "getProp (console_log args s) a p = getProp s a p"
  by (simp add: getProp_def console_log_def)

lemma example_later_props:
  "getProp later_state 13 ''activeConnections'' = JNum 7"
  "getProp later_state 14 ''activeConnections'' = JNum 3"
  "getProp example_state 13 ''activeConnections'' = JNum 2"
  "getProp example_state 14 ''activeConnections'' = JNum 0"
  by (simp_all add: getProp_def later_state_def example_state_def example_heap_def)

lemma example_root:
  "\<exists>item. fromConnectionGroup (Suc (Suc 0)) example_env (JStr ''mysql'') 10 (JBool True)
      (JBool True) JUndefined JUndefined example_state = Inr (item, example_state)"
  by (simp add: forEach_def fromConnection_def fromSharingProfile_def example_props)

text \<open>What a returning call of \<^verbatim>\<open>fromConnection\<close> has computed.\<close>

lemma fromConnection_Inr:
  assumes "fromConnection ds c isp cc s = Inr (item, s')"
  shows "\<exists>c1.
      (if truthy (getProp s c ''sharingProfiles'') \<and> isp \<noteq> JBool False
       then forEach (getProp s c ''sharingProfiles'') (\<lambda>child. fromSharingProfile ds child) [] s
       else Inr ([], s)) = Inr (c1, s')
    \<and> item = GroupListItem (Some (empty_template
          \<lparr> t_name := getProp s' c ''name'',
            t_identifier := getProp s' c ''identifier'',
            t_protocol := getProp s' c ''protocol'',
            t_dataSource := ds,
            t_expandable := JBool (isp \<noteq> JBool False),
            t_type := JStr CONNECTION,
            t_children := Items c1,
            t_getActiveConnections := JFun (ConnectionGetActiveConnections cc ds c),
            t_wrappedItem := JRef c \<rparr>))"
proof -
  let ?A = "if truthy (getProp s c ''sharingProfiles'') \<and> isp \<noteq> JBool False
       then forEach (getProp s c ''sharingProfiles'') (\<lambda>child. fromSharingProfile ds child) [] s
       else Inr ([], s)"
  obtain c1 s1 where A: "?A = Inr (c1, s1)"
  proof (cases ?A)
    case (Inl e)
    with assms show ?thesis by (simp only: fromConnection_def sum.case) simp
  next
    case (Inr p)
    with that show ?thesis by (cases p) blast
  qed
  from assms A have "s1 = s'" and "item = GroupListItem (Some (empty_template
          \<lparr> t_name := getProp s1 c ''name'',
            t_identifier := getProp s1 c ''identifier'',
            t_protocol := getProp s1 c ''protocol'',
            t_dataSource := ds,
            t_expandable := JBool (isp \<noteq> JBool False),
            t_type := JStr CONNECTION,
            t_children := Items c1,
            t_getActiveConnections := JFun (ConnectionGetActiveConnections cc ds c),
            t_wrappedItem := JRef c \<rparr>))"
    by (auto simp only: fromConnection_def sum.case prod.case sum.inject prod.inject)
  with A show ?thesis by (intro exI [of _ c1]) simp
qed

lemma fromConnection_children:
  assumes run: "fromConnection ds c isp cc s = Inr (item, s')"
  shows "\<exists>ns. children item = Items ns
     \<and> (if truthy (getProp s c ''sharingProfiles'') \<and> isp \<noteq> JBool False
        then \<exists>a ps. getProp s c ''sharingProfiles'' = JRef a \<and> heap s a = Arr ps
               \<and> list_all2 (\<lambda>p n. fromSharingProfile ds p s = Inr (n, s)) ps ns
        else ns = [])"
proof -
  from fromConnection_Inr [OF run] obtain c1 where
    one: "(if truthy (getProp s c ''sharingProfiles'') \<and> isp \<noteq> JBool False
       then forEach (getProp s c ''sharingProfiles'') (\<lambda>child. fromSharingProfile ds child) [] s
       else Inr ([], s)) = Inr (c1, s')"
    and item: "children item = Items c1"
    by (auto simp: item_fields)
  have fs: "\<forall>x y t. fromSharingProfile ds x s = Inr (y, t) \<longrightarrow> t = s"
    by (simp add: fromSharingProfile_state)
  show ?thesis
  proof (cases "truthy (getProp s c ''sharingProfiles'') \<and> isp \<noteq> JBool False")
    case True
    with one have "forEach (getProp s c ''sharingProfiles'')
        (\<lambda>child. fromSharingProfile ds child) [] s = Inr (c1, s')" by simp
    from forEach_Inr [of "\<lambda>child. fromSharingProfile ds child" s, OF fs this] True item
    show ?thesis by auto
  next
    case False
    with one item show ?thesis by auto
  qed
qed

lemma fromConnectionGroup_children:
  assumes run: "fromConnectionGroup (Suc depth) env ds g ic isp cc ccg s = Inr (item, s')"
  shows "\<exists>cn gn. children item = Items (cn @ gn)
     \<and> (if truthy (getProp s g ''childConnections'') \<and> ic \<noteq> JBool False
        then \<exists>a cs. getProp s g ''childConnections'' = JRef a \<and> heap s a = Arr cs
               \<and> list_all2 (\<lambda>c n. fromConnection ds c isp cc s = Inr (n, s)) cs cn
        else cn = [])
     \<and> (if truthy (getProp s g ''childConnectionGroups'')
        then \<exists>a gs. getProp s g ''childConnectionGroups'' = JRef a \<and> heap s a = Arr gs
               \<and> list_all2 (\<lambda>c n. fromConnectionGroup depth env ds c ic isp cc ccg s
                                      = Inr (n, s)) gs gn
        else gn = [])"
proof -
  from fromConnectionGroup_Suc_Inr [OF run] obtain c1 s1 c2 where
    one: "(if truthy (getProp s g ''childConnections'') \<and> ic \<noteq> JBool False
       then forEach (getProp s g ''childConnections'')
              (\<lambda>child. fromConnection ds child isp cc) [] s
       else Inr ([], s)) = Inr (c1, s1)"
    and two: "(if truthy (getProp s1 g ''childConnectionGroups'')
       then forEach (getProp s1 g ''childConnectionGroups'')
              (\<lambda>child. fromConnectionGroup depth env ds child ic isp cc ccg) c1 s1
       else Inr (c1, s1)) = Inr (c2, s')"
    and item: "children item = Items c2"
    by (auto simp: item_fields)
  have fc: "\<forall>x y t. fromConnection ds x isp cc s = Inr (y, t) \<longrightarrow> t = s"
    by (simp add: fromConnection_state)
  have fg: "\<forall>x y t. fromConnectionGroup depth env ds x ic isp cc ccg s = Inr (y, t) \<longrightarrow> t = s"
    by (simp add: fromConnectionGroup_state)
  have first: "s1 = s \<and> (if truthy (getProp s g ''childConnections'') \<and> ic \<noteq> JBool False
        then \<exists>a cs. getProp s g ''childConnections'' = JRef a \<and> heap s a = Arr cs
               \<and> list_all2 (\<lambda>c n. fromConnection ds c isp cc s = Inr (n, s)) cs c1
        else c1 = [])"
  proof (cases "truthy (getProp s g ''childConnections'') \<and> ic \<noteq> JBool False")
    case True
    with one have "forEach (getProp s g ''childConnections'')
              (\<lambda>child. fromConnection ds child isp cc) [] s = Inr (c1, s1)" by simp
    from forEach_Inr [of "\<lambda>child. fromConnection ds child isp cc" s, OF fc this] True
    show ?thesis by auto
  next
    case False
    with one show ?thesis by auto
  qed
  then have s1: "s1 = s" by simp
  have second: "\<exists>gn. c2 = c1 @ gn \<and> (if truthy (getProp s g ''childConnectionGroups'')
        then \<exists>a gs. getProp s g ''childConnectionGroups'' = JRef a \<and> heap s a = Arr gs
               \<and> list_all2 (\<lambda>c n. fromConnectionGroup depth env ds c ic isp cc ccg s
                                      = Inr (n, s)) gs gn
        else gn = [])"
  proof (cases "truthy (getProp s g ''childConnectionGroups'')")
    case True
    with two s1 have "forEach (getProp s g ''childConnectionGroups'')
              (\<lambda>child. fromConnectionGroup depth env ds child ic isp cc ccg) c1 s = Inr (c2, s')"
      by simp
    from forEach_Inr [of "\<lambda>child. fromConnectionGroup depth env ds child ic isp cc ccg" s,
        OF fg this] True
    show ?thesis by auto
  next
    case False
    with two s1 show ?thesis by auto
  qed
  then obtain gn where c2: "c2 = c1 @ gn" and
    gn: "if truthy (getProp s g ''childConnectionGroups'')
        then \<exists>a gs. getProp s g ''childConnectionGroups'' = JRef a \<and> heap s a = Arr gs
               \<and> list_all2 (\<lambda>c n. fromConnectionGroup depth env ds c ic isp cc ccg s
                                      = Inr (n, s)) gs gn
        else gn = []"
    by blast
  from first have cn: "if truthy (getProp s g ''childConnections'') \<and> ic \<noteq> JBool False
        then \<exists>a cs. getProp s g ''childConnections'' = JRef a \<and> heap s a = Arr cs
               \<and> list_all2 (\<lambda>c n. fromConnection ds c isp cc s = Inr (n, s)) cs c1
        else c1 = []"
    by (rule conjunct2)
  from item c2 have ch: "children item = Items (c1 @ gn)" by simp
  show ?thesis
    by (rule exI [of _ c1], rule exI [of _ gn], intro conjI) (rule ch, rule cn, rule gn)
qed

text \<open>
  The inclusion flags are compared with \<^verbatim>\<open>false\<close> only.
\<close>

lemma fromConnection_flag_not_false:
  assumes "v \<noteq> JBool False"
  shows "fromConnection ds c v cc s = fromConnection ds c (JBool True) cc s"
  using assms by (simp add: fromConnection_def cong: sum.case_cong)

lemma fromConnectionGroup_flag_not_false:
  assumes "v \<noteq> JBool False"
  shows "fromConnectionGroup depth env ds g v isp cc ccg s =
         fromConnectionGroup depth env ds g (JBool True) isp cc ccg s"
  using assms
proof (induction depth arbitrary: g s)
  case 0
  then show ?case by simp
next
  case (Suc depth)
  have eq: "\<And>child. fromConnectionGroup depth env ds child v isp cc ccg =
      fromConnectionGroup depth env ds child (JBool True) isp cc ccg"
    by (rule ext) (rule Suc.IH [OF Suc.prems])
  from Suc.prems show ?case by (simp only: fromConnectionGroup.simps eq) simp
qed

text \<open>
  On inputs of the documented shape the builders return, \<^verbatim>\<open>fromConnectionGroup\<close> as
  soon as the depth allowed exceeds the depth of the tree; and a result obtained within
  some depth is the result within every greater depth.
\<close>

lemma forEach_push_returns:
  assumes "\<forall>x \<in> set xs. \<exists>y. f x s = Inr (y, s)"
  shows "\<exists>r. forEach_push f xs acc s = Inr (r, s)"
  using assms
proof (induction xs arbitrary: acc)
  case Nil
  then show ?case by simp
next
  case (Cons x xs)
  then obtain y where "f x s = Inr (y, s)" by auto
  moreover from Cons obtain r where "forEach_push f xs (acc @ [y]) s = Inr (r, s)"
    by (meson list.set_intros(2))
  ultimately show ?case by simp
qed

lemma forEach_returns:
  assumes "elements s v = Some xs" and "truthy v"
    and "\<forall>x \<in> set xs. \<exists>y. f x s = Inr (y, s)"
  shows "\<exists>r. forEach v f acc s = Inr (r, s)"
  using assms forEach_push_returns [of xs f s acc]
  by (auto simp: elements_def forEach_def split: jsval.splits obj.splits)

lemma fromConnection_returns:
  assumes "wellFormedConnection s c"
  shows "\<exists>item. fromConnection ds c isp cc s = Inr (item, s)"
proof -
  from assms obtain ps where ps: "elements s (getProp s c ''sharingProfiles'') = Some ps"
    by (auto simp: wellFormedConnection_def)
  have "\<forall>p \<in> set ps. \<exists>y. fromSharingProfile ds p s = Inr (y, s)"
    by (simp add: fromSharingProfile_def)
  from forEach_returns [where f = "\<lambda>child. fromSharingProfile ds child" and acc = "[]",
      OF ps _ this]
  show ?thesis by (auto simp: fromConnection_def)
qed

lemma fromConnectionGroup_returns:
  assumes "wellFormedGroup depth s g"
  shows "\<exists>item. fromConnectionGroup depth env ds g ic isp cc ccg s = Inr (item, s)"
  using assms
proof (induction depth arbitrary: g)
  case 0
  then show ?case by simp
next
  case (Suc depth)
  from Suc.prems obtain cs gs where
    cs: "elements s (getProp s g ''childConnections'') = Some cs"
    and wc: "\<forall>c \<in> set cs. wellFormedConnection s c"
    and gs: "elements s (getProp s g ''childConnectionGroups'') = Some gs"
    and wg: "\<forall>child \<in> set gs. wellFormedGroup depth s child"
    by (auto split: option.splits)
  from wc have "\<forall>c \<in> set cs. \<exists>y. fromConnection ds c isp cc s = Inr (y, s)"
    by (simp add: fromConnection_returns)
  from forEach_returns [where f = "\<lambda>child. fromConnection ds child isp cc" and acc = "[]",
      OF cs _ this]
  obtain c1 where one: "(if truthy (getProp s g ''childConnections'') \<and> ic \<noteq> JBool False
       then forEach (getProp s g ''childConnections'')
              (\<lambda>child. fromConnection ds child isp cc) [] s
       else Inr ([], s)) = Inr (c1, s)"
    by (cases "truthy (getProp s g ''childConnections'') \<and> ic \<noteq> JBool False") auto
  from wg Suc.IH
  have "\<forall>child \<in> set gs. \<exists>y. fromConnectionGroup depth env ds child ic isp cc ccg s = Inr (y, s)"
    by blast
  from forEach_returns
    [where f = "\<lambda>child. fromConnectionGroup depth env ds child ic isp cc ccg" and acc = c1,
      OF gs _ this]
  obtain c2 where two: "(if truthy (getProp s g ''childConnectionGroups'')
       then forEach (getProp s g ''childConnectionGroups'')
              (\<lambda>child. fromConnectionGroup depth env ds child ic isp cc ccg) c1 s
       else Inr (c1, s)) = Inr (c2, s)"
    by (cases "truthy (getProp s g ''childConnectionGroups'')") auto
  show ?case by (simp only: fromConnectionGroup.simps one two sum.case prod.case) blast
qed

lemma forEach_push_mono:
  assumes "\<And>x t r. f x t = Inr r \<Longrightarrow> f' x t = Inr r"
    and "forEach_push f xs acc s = Inr res"
  shows "forEach_push f' xs acc s = Inr res"
  using assms(2)
proof (induction xs arbitrary: acc s)
  case Nil
  then show ?case by simp
next
  case (Cons x xs)
  then obtain y t where fx: "f x s = Inr (y, t)"
    and rest: "forEach_push f xs (acc @ [y]) t = Inr res"
    by (auto split: sum.splits)
  from assms(1) [OF fx] Cons.IH [OF rest] show ?case by simp
qed

lemma fromConnectionGroup_more_depth:
  assumes "fromConnectionGroup depth env ds g ic isp cc ccg s = Inr res"
  shows "fromConnectionGroup (depth + k) env ds g ic isp cc ccg s = Inr res"
  using assms
proof (induction depth arbitrary: g s res)
  case 0
  then show ?case by simp
next
  case (Suc depth)
  obtain item s' where res: "res = (item, s')" by (cases res)
  from fromConnectionGroup_Suc_Inr [OF Suc.prems [unfolded res]] obtain c1 s1 c2 where
    one: "(if truthy (getProp s g ''childConnections'') \<and> ic \<noteq> JBool False
       then forEach (getProp s g ''childConnections'')
              (\<lambda>child. fromConnection ds child isp cc) [] s
       else Inr ([], s)) = Inr (c1, s1)"
    and two: "(if truthy (getProp s1 g ''childConnectionGroups'')
       then forEach (getProp s1 g ''childConnectionGroups'')
              (\<lambda>child. fromConnectionGroup depth env ds child ic isp cc ccg) c1 s1
       else Inr (c1, s1)) = Inr (c2, s')"
    and item: "item = GroupListItem (Some (empty_template
          \<lparr> t_name := getProp s' g ''name'',
            t_identifier := getProp s' g ''identifier'',
            t_dataSource := ds,
            t_type := JStr CONNECTION_GROUP,
            t_balancing := JBool (getProp s' g ''type'' = JStr (BALANCING env)),
            t_expandable := JBool True,
            t_children := Items c2,
            t_getActiveConnections := JFun (GroupGetActiveConnections ccg ds g),
            t_wrappedItem := JRef g \<rparr>))"
    by blast
  have two': "(if truthy (getProp s1 g ''childConnectionGroups'')
       then forEach (getProp s1 g ''childConnectionGroups'')
              (\<lambda>child. fromConnectionGroup (depth + k) env ds child ic isp cc ccg) c1 s1
       else Inr (c1, s1)) = Inr (c2, s')"
  proof (cases "truthy (getProp s1 g ''childConnectionGroups'')")
    case True
    with two obtain a xs where v: "getProp s1 g ''childConnectionGroups'' = JRef a"
      and h: "heap s1 a = Arr xs"
      and p: "forEach_push (\<lambda>child. fromConnectionGroup depth env ds child ic isp cc ccg)
                xs c1 s1 = Inr (c2, s')"
      by (auto simp: forEach_def split: jsval.splits obj.splits)
    from forEach_push_mono [of "\<lambda>child. fromConnectionGroup depth env ds child ic isp cc ccg"
        "\<lambda>child. fromConnectionGroup (depth + k) env ds child ic isp cc ccg", OF _ p] Suc.IH
    have "forEach_push (\<lambda>child. fromConnectionGroup (depth + k) env ds child ic isp cc ccg)
                xs c1 s1 = Inr (c2, s')"
      by blast
    with True v h show ?thesis by (simp add: forEach_def)
  next
    case False
    with two show ?thesis by simp
  qed
  have "fromConnectionGroup (Suc (depth + k)) env ds g ic isp cc ccg s = Inr (item, s')"
    by (simp only: fromConnectionGroup.simps one two' sum.case prod.case item)
  with res show ?case by simp
qed

section \<open>The claims\<close>

text \<open>
  C1. When the \<^verbatim>\<open>childConnections\<close> and the \<^verbatim>\<open>childConnectionGroups\<close> of a group are both
  present, the \<^verbatim>\<open>children\<close> of the item that \<^verbatim>\<open>fromConnectionGroup\<close> returns are the items
  built from the child connections, in the order of the source (none when
  \<^verbatim>\<open>includeConnections\<close> is \<^verbatim>\<open>false\<close>), followed by the items built from the child groups,
  in the order of the source.
\<close>

theorem fromConnectionGroup_connections_before_groups:
  assumes "getProp s g ''childConnections'' = JRef ca" and "heap s ca = Arr cs"
    and "getProp s g ''childConnectionGroups'' = JRef ga" and "heap s ga = Arr gs"
    and run: "fromConnectionGroup (Suc depth) env ds g ic isp cc ccg s = Inr (item, s')"
  shows "\<exists>cn gn. children item = Items (cn @ gn)
     \<and> (if ic \<noteq> JBool False
        then list_all2 (\<lambda>c n. fromConnection ds c isp cc s = Inr (n, s)) cs cn
        else cn = [])
     \<and> list_all2 (\<lambda>c n. fromConnectionGroup depth env ds c ic isp cc ccg s = Inr (n, s)) gs gn"
  using fromConnectionGroup_children [OF run] assms(1-4)
  by (auto split: if_splits)

theorem fromConnectionGroup_connections_before_groups_witness:
  "\<exists>item n1 n2.
      fromConnectionGroup (Suc (Suc 0)) example_env (JStr ''mysql'') 10 (JBool True)
        (JBool True) JUndefined JUndefined example_state = Inr (item, example_state)
    \<and> children item = Items [n1, n2]
    \<and> fromConnection (JStr ''mysql'') 13 (JBool True) JUndefined example_state
        = Inr (n1, example_state)
    \<and> fromConnectionGroup (Suc 0) example_env (JStr ''mysql'') 14 (JBool True)
        (JBool True) JUndefined JUndefined example_state = Inr (n2, example_state)
    \<and> type n1 = JStr CONNECTION \<and> type n2 = JStr CONNECTION_GROUP"
proof -
  from example_root obtain item where
    run: "fromConnectionGroup (Suc (Suc 0)) example_env (JStr ''mysql'') 10 (JBool True)
        (JBool True) JUndefined JUndefined example_state = Inr (item, example_state)"
    by blast
  from fromConnectionGroup_connections_before_groups
    [OF example_props(1) example_props(8) example_props(2) example_props(9) run]
  obtain n1 n2 where ch: "children item = Items [n1, n2]"
    and r1: "fromConnection (JStr ''mysql'') 13 (JBool True) JUndefined example_state
        = Inr (n1, example_state)"
    and r2: "fromConnectionGroup (Suc 0) example_env (JStr ''mysql'') 14 (JBool True)
        (JBool True) JUndefined JUndefined example_state = Inr (n2, example_state)"
    by (auto simp: list_all2_Cons1)
  from fromConnection_Inr [OF r1] have t1: "type n1 = JStr CONNECTION"
    by (auto simp: item_fields)
  from fromConnectionGroup_Suc_Inr [OF r2] have t2: "type n2 = JStr CONNECTION_GROUP"
    by (auto simp: item_fields)
  from run ch r1 r2 t1 t2 show ?thesis by blast
qed

text \<open>
  C2. For a connection whose \<^verbatim>\<open>sharingProfiles\<close> is the array \<^verbatim>\<open>[p1, p2]\<close>,
  \<^verbatim>\<open>fromConnection\<close> with \<^verbatim>\<open>includeSharingProfiles = true\<close> returns an item with exactly two
  children: the item built from \<^verbatim>\<open>p1\<close>, then the item built from \<^verbatim>\<open>p2\<close>, both of type
  \<^verbatim>\<open>sharing-profile\<close>.
\<close>

theorem fromConnection_two_sharingProfiles:
  assumes "getProp s c ''sharingProfiles'' = JRef a" and "heap s a = Arr [p1, p2]"
  shows "\<exists>item n1 n2. fromConnection ds c (JBool True) cc s = Inr (item, s)
      \<and> children item = Items [n1, n2]
      \<and> fromSharingProfile ds p1 s = Inr (n1, s)
      \<and> fromSharingProfile ds p2 s = Inr (n2, s)
      \<and> type n1 = JStr SHARING_PROFILE \<and> type n2 = JStr SHARING_PROFILE
      \<and> wrappedItem n1 = JRef p1 \<and> wrappedItem n2 = JRef p2"
  using assms
  by (simp add: fromConnection_def forEach_def fromSharingProfile_def item_fields)

theorem fromConnection_two_sharingProfiles_witness:
  "\<exists>item n1 n2.
      fromConnection (JStr ''mysql'') 13 (JBool True) JUndefined example_state
        = Inr (item, example_state)
    \<and> children item = Items [n1, n2]
    \<and> fromSharingProfile (JStr ''mysql'') 16 example_state = Inr (n1, example_state)
    \<and> fromSharingProfile (JStr ''mysql'') 17 example_state = Inr (n2, example_state)
    \<and> type n1 = JStr SHARING_PROFILE \<and> type n2 = JStr SHARING_PROFILE
    \<and> wrappedItem n1 = JRef 16 \<and> wrappedItem n2 = JRef 17"
  by (rule fromConnection_two_sharingProfiles [OF example_props(3) example_props(10)])

text \<open>
  C3. Called with \<^verbatim>\<open>includeSharingProfiles = false\<close>, \<^verbatim>\<open>fromConnection\<close> returns, for every
  connection and whatever sharing profiles it has, an item without children whose
  \<^verbatim>\<open>expandable\<close> is \<^verbatim>\<open>false\<close>.
\<close>

theorem fromConnection_excluding_sharingProfiles:
  "\<exists>item. fromConnection ds c (JBool False) cc s = Inr (item, s)
      \<and> children item = Items [] \<and> expandable item = JBool False"
  by (simp add: fromConnection_def item_fields)

text \<open>
  C4. Every item that \<^verbatim>\<open>fromConnectionGroup\<close> returns has \<^verbatim>\<open>expandable = true\<close>, whatever the
  child collections of the group are, absent and empty ones included.
\<close>

theorem fromConnectionGroup_expandable:
  assumes "fromConnectionGroup depth env ds g ic isp cc ccg s = Inr (item, s')"
  shows "expandable item = JBool True"
proof (cases depth)
  case 0
  with assms show ?thesis by simp
next
  case (Suc d)
  with assms fromConnectionGroup_Suc_Inr [of d env ds g ic isp cc ccg s item s']
  show ?thesis by (auto simp: item_fields)
qed

theorem fromConnectionGroup_expandable_witness:
  "\<exists>item s'. fromConnectionGroup (Suc 0) example_env (JStr ''mysql'') 14 JUndefined JUndefined
       JUndefined JUndefined example_state = Inr (item, s')
     \<and> expandable item = JBool True"
proof -
  obtain item where
    run: "fromConnectionGroup (Suc 0) example_env (JStr ''mysql'') 14 JUndefined JUndefined
       JUndefined JUndefined example_state = Inr (item, example_state)"
    using fromConnectionGroup_leaf [of example_state 14] by (auto simp: example_props)
  from fromConnectionGroup_expandable [OF run] run show ?thesis by blast
qed

text \<open>
  C5. The \<^verbatim>\<open>balancing\<close> flag of the item that \<^verbatim>\<open>fromConnectionGroup\<close> returns is \<^verbatim>\<open>true\<close>
  exactly when the \<^verbatim>\<open>type\<close> of the group is \<^verbatim>\<open>ConnectionGroup.Type.BALANCING\<close>, and \<^verbatim>\<open>false\<close>
  for every other type.
\<close>

theorem fromConnectionGroup_balancing:
  assumes "fromConnectionGroup depth env ds g ic isp cc ccg s = Inr (item, s')"
  shows "(balancing item = JBool True \<longleftrightarrow> getProp s g ''type'' = JStr (BALANCING env))
       \<and> (getProp s g ''type'' \<noteq> JStr (BALANCING env) \<longrightarrow> balancing item = JBool False)"
proof (cases depth)
  case 0
  with assms show ?thesis by simp
next
  case (Suc d)
  from fromConnectionGroup_state [OF assms] have "s' = s" .
  with Suc assms fromConnectionGroup_Suc_Inr [of d env ds g ic isp cc ccg s item s']
  show ?thesis by (auto simp: item_fields)
qed

theorem fromConnectionGroup_balancing_witness:
  "\<exists>item root.
      fromConnectionGroup (Suc 0) example_env (JStr ''mysql'') 14 JUndefined JUndefined
        JUndefined JUndefined example_state = Inr (item, example_state)
    \<and> balancing item = JBool True
    \<and> fromConnectionGroup (Suc (Suc 0)) example_env (JStr ''mysql'') 10 (JBool True)
        (JBool True) JUndefined JUndefined example_state = Inr (root, example_state)
    \<and> balancing root = JBool False"
proof -
  obtain item where
    run: "fromConnectionGroup (Suc 0) example_env (JStr ''mysql'') 14 JUndefined JUndefined
       JUndefined JUndefined example_state = Inr (item, example_state)"
    using fromConnectionGroup_leaf [of example_state 14] by (auto simp: example_props)
  from example_root obtain root where
    run': "fromConnectionGroup (Suc (Suc 0)) example_env (JStr ''mysql'') 10 (JBool True)
        (JBool True) JUndefined JUndefined example_state = Inr (root, example_state)"
    by blast
  from fromConnectionGroup_balancing [OF run] have "balancing item = JBool True"
    by (simp add: example_props example_env_def)
  moreover from fromConnectionGroup_balancing [OF run'] have "balancing root = JBool False"
    by (simp add: example_props example_env_def)
  ultimately show ?thesis using run run' by blast
qed

text \<open>
  C6. For the item built by \<^verbatim>\<open>fromConnection\<close> (counter \<^verbatim>\<open>countActiveConnections\<close>) and the
  item built by \<^verbatim>\<open>fromConnectionGroup\<close> (counter \<^verbatim>\<open>countActiveConnectionGroups\<close>): when the
  counter is a function, every call of \<^verbatim>\<open>getActiveConnections\<close>, in whatever state, is the
  call of that counter with the data source and the source entity, and returns what it
  returns; when no counter is supplied, the call returns the \<^verbatim>\<open>activeConnections\<close> that
  the entity has in the state of the call, not the one it had when the item was built.
  The closure of \<^verbatim>\<open>fromConnectionGroup\<close> writes a line to the console first.
\<close>

theorem getActiveConnections_counter_or_live_value:
  "(fromConnection ds c isp cc s0 = Inr (item, s1) \<longrightarrow>
      (\<forall>f. cc = JFun f \<longrightarrow>
         (\<forall>s. invoke_getActiveConnections env item s = call env (JFun f) None [ds, JRef c] s))
    \<and> (\<not> truthy cc \<longrightarrow>
         (\<forall>s. invoke_getActiveConnections env item s
                = Inr (getProp s c ''activeConnections'', s))))
 \<and> (fromConnectionGroup depth env0 ds g ic isp cc ccg s0 = Inr (gitem, s2) \<longrightarrow>
      (\<forall>f. ccg = JFun f \<longrightarrow>
         (\<forall>s. invoke_getActiveConnections env gitem s
                = call env (JFun f) None [ds, JRef g]
                    (console_log [JStr ''getActiveConnections''] s)))
    \<and> (\<not> truthy ccg \<longrightarrow>
         (\<forall>s. invoke_getActiveConnections env gitem s
                = Inr (getProp s g ''activeConnections'',
                       console_log [JStr ''getActiveConnections''] s))))"
proof (intro conjI impI)
  assume run: "fromConnection ds c isp cc s0 = Inr (item, s1)"
  from fromConnection_Inr [OF run]
  have acc: "getActiveConnections item = JFun (ConnectionGetActiveConnections cc ds c)"
    by (auto simp: item_fields)
  show "\<forall>f. cc = JFun f \<longrightarrow>
         (\<forall>s. invoke_getActiveConnections env item s = call env (JFun f) None [ds, JRef c] s)"
    by (simp add: invoke_getActiveConnections_def acc)
  show "\<forall>s. invoke_getActiveConnections env item s = Inr (getProp s c ''activeConnections'', s)"
    if "\<not> truthy cc"
    using that by (simp add: invoke_getActiveConnections_def acc)
next
  assume run: "fromConnectionGroup depth env0 ds g ic isp cc ccg s0 = Inr (gitem, s2)"
  have acc: "getActiveConnections gitem = JFun (GroupGetActiveConnections ccg ds g)"
  proof (cases depth)
    case 0
    with run show ?thesis by simp
  next
    case (Suc d)
    with run fromConnectionGroup_Suc_Inr [of d env0 ds g ic isp cc ccg s0 gitem s2]
    show ?thesis by (auto simp: item_fields)
  qed
  show "\<forall>f. ccg = JFun f \<longrightarrow>
         (\<forall>s. invoke_getActiveConnections env gitem s
                = call env (JFun f) None [ds, JRef g]
                    (console_log [JStr ''getActiveConnections''] s))"
    by (simp add: invoke_getActiveConnections_def acc Let_def)
  show "\<forall>s. invoke_getActiveConnections env gitem s
                = Inr (getProp s g ''activeConnections'',
                       console_log [JStr ''getActiveConnections''] s)"
    if "\<not> truthy ccg"
    using that by (simp add: invoke_getActiveConnections_def acc Let_def)
qed

theorem getActiveConnections_counter_or_live_value_witness:
  "\<exists>i1 i2 g1 g2.
      fromConnection (JStr ''mysql'') 13 (JBool True) (JFun (Extern 2)) example_state
        = Inr (i1, example_state)
    \<and> invoke_getActiveConnections example_env i1 later_state = Inr (JNum 42, later_state)
    \<and> fromConnection (JStr ''mysql'') 13 (JBool True) JUndefined example_state
        = Inr (i2, example_state)
    \<and> invoke_getActiveConnections example_env i2 example_state = Inr (JNum 2, example_state)
    \<and> invoke_getActiveConnections example_env i2 later_state = Inr (JNum 7, later_state)
    \<and> fromConnectionGroup (Suc 0) example_env (JStr ''mysql'') 14 (JBool True) (JBool True)
          JUndefined (JFun (Extern 3)) example_state = Inr (g1, example_state)
    \<and> invoke_getActiveConnections example_env g1 later_state
        = Inr (JNum 43, console_log [JStr ''getActiveConnections''] later_state)
    \<and> fromConnectionGroup (Suc 0) example_env (JStr ''mysql'') 14 (JBool True) (JBool True)
          JUndefined JUndefined example_state = Inr (g2, example_state)
    \<and> invoke_getActiveConnections example_env g2 example_state
        = Inr (JNum 0, console_log [JStr ''getActiveConnections''] example_state)
    \<and> invoke_getActiveConnections example_env g2 later_state
        = Inr (JNum 3, console_log [JStr ''getActiveConnections''] later_state)"
proof -
  obtain i1 where r1: "fromConnection (JStr ''mysql'') 13 (JBool True) (JFun (Extern 2))
      example_state = Inr (i1, example_state)"
    by (simp add: fromConnection_def forEach_def fromSharingProfile_def example_props)
  obtain i2 where r2: "fromConnection (JStr ''mysql'') 13 (JBool True) JUndefined
      example_state = Inr (i2, example_state)"
    by (simp add: fromConnection_def forEach_def fromSharingProfile_def example_props)
  obtain g1 where r3: "fromConnectionGroup (Suc 0) example_env (JStr ''mysql'') 14 (JBool True)
      (JBool True) JUndefined (JFun (Extern 3)) example_state = Inr (g1, example_state)"
    by (simp add: example_props)
  obtain g2 where r4: "fromConnectionGroup (Suc 0) example_env (JStr ''mysql'') 14 (JBool True)
      (JBool True) JUndefined JUndefined example_state = Inr (g2, example_state)"
    by (simp add: example_props)
  have a1: "invoke_getActiveConnections example_env i1 later_state = Inr (JNum 42, later_state)"
    using getActiveConnections_counter_or_live_value [THEN conjunct1, THEN mp, OF r1, THEN conjunct1, rule_format, OF refl,
        of example_env later_state]
    by (simp add: example_env_def)
  have a2: "invoke_getActiveConnections example_env i2 example_state
        = Inr (JNum 2, example_state)"
      "invoke_getActiveConnections example_env i2 later_state = Inr (JNum 7, later_state)"
    using getActiveConnections_counter_or_live_value [THEN conjunct1, THEN mp, OF r2, THEN conjunct2, rule_format,
        of example_env]
    by (simp_all add: example_later_props)
  have a3: "invoke_getActiveConnections example_env g1 later_state
        = Inr (JNum 43, console_log [JStr ''getActiveConnections''] later_state)"
    using getActiveConnections_counter_or_live_value [THEN conjunct2, THEN mp, OF r3, THEN conjunct1, rule_format, OF refl,
        of example_env later_state]
    by (simp add: example_env_def)
  have a4: "invoke_getActiveConnections example_env g2 example_state
        = Inr (JNum 0, console_log [JStr ''getActiveConnections''] example_state)"
      "invoke_getActiveConnections example_env g2 later_state
        = Inr (JNum 3, console_log [JStr ''getActiveConnections''] later_state)"
    using getActiveConnections_counter_or_live_value [THEN conjunct2, THEN mp, OF r4, THEN conjunct2, rule_format,
        of example_env]
    by (simp_all add: example_later_props)
  from r1 r2 r3 r4 a1 a2 a3 a4 show ?thesis by blast
qed

text \<open>
  C7. As amended: for every item that has the default \<^verbatim>\<open>getClientIdentifier\<close> of the
  constructor (the template supplied none, as in the three builders) and whose type is
  neither \<^verbatim>\<open>connection\<close> nor \<^verbatim>\<open>connection-group\<close>, custom types included, the call of
  \<^verbatim>\<open>getClientIdentifier\<close> returns \<^verbatim>\<open>null\<close> and raises nothing; so it does for every item
  that \<^verbatim>\<open>fromSharingProfile\<close> builds.
\<close>

theorem default_getClientIdentifier_null:
  "(getClientIdentifier item = JFun DefaultGetClientIdentifier
      \<and> type item \<noteq> JStr CONNECTION \<and> type item \<noteq> JStr CONNECTION_GROUP
    \<longrightarrow> invoke_getClientIdentifier env item s = Inr (JNull, s))
 \<and> (\<not> truthy (t_getClientIdentifier t)
      \<and> t_type t \<noteq> JStr CONNECTION \<and> t_type t \<noteq> JStr CONNECTION_GROUP
    \<longrightarrow> invoke_getClientIdentifier env (GroupListItem (Some t)) s = Inr (JNull, s))
 \<and> (fromSharingProfile ds p s0 = Inr (pitem, s1)
    \<longrightarrow> invoke_getClientIdentifier env pitem s = Inr (JNull, s))"
  by (auto simp: invoke_getClientIdentifier_def item_fields fromSharingProfile_def
      CONNECTION_def CONNECTION_GROUP_def SHARING_PROFILE_def)

theorem default_getClientIdentifier_null_witness:
  "\<exists>pitem. fromSharingProfile (JStr ''mysql'') 16 example_state = Inr (pitem, example_state)
     \<and> invoke_getClientIdentifier example_env pitem later_state = Inr (JNull, later_state)
     \<and> invoke_getClientIdentifier example_env pitem example_state = Inr (JNull, example_state)
     \<and> invoke_getClientIdentifier example_env
          (GroupListItem (Some (empty_template \<lparr> t_type := JStr ''custom'' \<rparr>))) later_state
         = Inr (JNull, later_state)"
proof -
  obtain pitem where r: "fromSharingProfile (JStr ''mysql'') 16 example_state
      = Inr (pitem, example_state)"
    by (simp add: fromSharingProfile_def)
  have a: "invoke_getClientIdentifier example_env pitem later_state = Inr (JNull, later_state)"
    using default_getClientIdentifier_null [THEN conjunct2, THEN conjunct2, THEN mp, OF r] .
  have b: "invoke_getClientIdentifier example_env
          (GroupListItem (Some (empty_template \<lparr> t_type := JStr ''custom'' \<rparr>))) later_state
         = Inr (JNull, later_state)"
    using default_getClientIdentifier_null [THEN conjunct2, THEN conjunct1,
        of "empty_template \<lparr> t_type := JStr ''custom'' \<rparr>" example_env later_state]
    by (simp add: empty_template_def CONNECTION_def CONNECTION_GROUP_def)
  from r have "getClientIdentifier pitem = JFun DefaultGetClientIdentifier"
    and "type pitem = JStr SHARING_PROFILE"
    by (auto simp: fromSharingProfile_def item_fields)
  then have c: "invoke_getClientIdentifier example_env pitem example_state
      = Inr (JNull, example_state)"
    using default_getClientIdentifier_null [THEN conjunct1, of pitem example_env example_state]
    by (simp add: CONNECTION_def CONNECTION_GROUP_def SHARING_PROFILE_def)
  from r a b c show ?thesis by blast
qed

text \<open>
  C7. As first stated, for every item, it fails: the constructor keeps a
  \<^verbatim>\<open>getClientIdentifier\<close> that the template supplies (line 102), so an item of a custom
  type can answer with something other than \<^verbatim>\<open>null\<close>.
\<close>

theorem custom_getClientIdentifier_not_null:
  "type custom_item \<noteq> JStr CONNECTION \<and> type custom_item \<noteq> JStr CONNECTION_GROUP
 \<and> invoke_getClientIdentifier example_env custom_item example_state
      = Inr (JNum 40, example_state)
 \<and> invoke_getClientIdentifier example_env custom_item example_state
      \<noteq> Inr (JNull, example_state)"
  by (simp add: custom_item_def item_fields invoke_getClientIdentifier_def example_env_def
      CONNECTION_def CONNECTION_GROUP_def)

text \<open>
  C8. The three builders leave the state as they found it: after a build every source
  object, and so every property of it, is what it was before.
\<close>

theorem builders_leave_state_unchanged:
  "(fromSharingProfile ds p s = Inr (item1, s1) \<longrightarrow> s1 = s)
 \<and> (fromConnection ds c isp cc s = Inr (item2, s2) \<longrightarrow> s2 = s)
 \<and> (fromConnectionGroup depth env ds g ic isp cc ccg s = Inr (item3, s3) \<longrightarrow> s3 = s)"
  by (intro conjI impI)
    (erule fromSharingProfile_state, erule fromConnection_state, erule fromConnectionGroup_state)

theorem builders_leave_state_unchanged_witness:
  "\<exists>i1 i2 i3.
      fromSharingProfile (JStr ''mysql'') 16 example_state = Inr (i1, example_state)
    \<and> fromConnection (JStr ''mysql'') 13 (JBool True) JUndefined example_state
        = Inr (i2, example_state)
    \<and> fromConnectionGroup (Suc (Suc 0)) example_env (JStr ''mysql'') 10 (JBool True)
        (JBool True) JUndefined JUndefined example_state = Inr (i3, example_state)"
proof -
  obtain i1 s1 where r1: "fromSharingProfile (JStr ''mysql'') 16 example_state = Inr (i1, s1)"
    by (simp add: fromSharingProfile_def)
  obtain i2 s2 where r2: "fromConnection (JStr ''mysql'') 13 (JBool True) JUndefined
      example_state = Inr (i2, s2)"
    by (simp add: fromConnection_def forEach_def fromSharingProfile_def example_props)
  obtain i3 s3 where r3: "fromConnectionGroup (Suc (Suc 0)) example_env (JStr ''mysql'') 10
      (JBool True) (JBool True) JUndefined JUndefined example_state = Inr (i3, s3)"
    using example_root by blast
  from builders_leave_state_unchanged [THEN conjunct1, THEN mp, OF r1] have "s1 = example_state" .
  moreover from builders_leave_state_unchanged [THEN conjunct2, THEN conjunct1, THEN mp, OF r2] have "s2 = example_state" .
  moreover from builders_leave_state_unchanged [THEN conjunct2, THEN conjunct2, THEN mp, OF r3] have "s3 = example_state" .
  ultimately show ?thesis using r1 r2 r3 by blast
qed

text \<open>
  C9. The \<^verbatim>\<open>children\<close> of an item made by the constructor are never \<^verbatim>\<open>undefined\<close> or
  \<^verbatim>\<open>null\<close>, and are the empty array when the template supplies none; the items of the
  three builders have an array of children, the empty one for \<^verbatim>\<open>fromSharingProfile\<close>.
\<close>

theorem children_never_null:
  "children (GroupListItem template0) \<noteq> Other JUndefined
 \<and> children (GroupListItem template0) \<noteq> Other JNull
 \<and> children (GroupListItem None) = Items []
 \<and> (\<not> truthy_children (t_children t) \<longrightarrow> children (GroupListItem (Some t)) = Items [])
 \<and> (fromSharingProfile ds p s = Inr (item1, s1) \<longrightarrow> children item1 = Items [])
 \<and> (fromConnection ds c isp cc s = Inr (item2, s2) \<longrightarrow> (\<exists>xs. children item2 = Items xs))
 \<and> (fromConnectionGroup depth env ds g ic isp cc ccg s = Inr (item3, s3)
       \<longrightarrow> (\<exists>xs. children item3 = Items xs))"
proof (intro conjI impI)
  show "children (GroupListItem template0) \<noteq> Other JUndefined"
    by (cases template0) (auto simp: item_fields)
  show "children (GroupListItem template0) \<noteq> Other JNull"
    by (cases template0) (auto simp: item_fields)
  show "children (GroupListItem None) = Items []"
    by (simp add: item_fields)
  show "children (GroupListItem (Some t)) = Items []" if "\<not> truthy_children (t_children t)"
    using that by (simp add: item_fields)
  show "children item1 = Items []" if "fromSharingProfile ds p s = Inr (item1, s1)"
    using that by (auto simp: fromSharingProfile_def item_fields)
  show "\<exists>xs. children item2 = Items xs" if "fromConnection ds c isp cc s = Inr (item2, s2)"
    using fromConnection_Inr [OF that] by (auto simp: item_fields)
  show "\<exists>xs. children item3 = Items xs"
    if "fromConnectionGroup depth env ds g ic isp cc ccg s = Inr (item3, s3)"
  proof (cases depth)
    case 0
    with that show ?thesis by simp
  next
    case (Suc d)
    with that fromConnectionGroup_Suc_Inr [of d env ds g ic isp cc ccg s item3 s3]
    show ?thesis by (auto simp: item_fields)
  qed
qed

theorem children_never_null_witness:
  "\<exists>i1 i2 i3 xs ys.
      children (GroupListItem (Some (empty_template \<lparr> t_children := Other JNull \<rparr>))) = Items []
    \<and> fromSharingProfile (JStr ''mysql'') 16 example_state = Inr (i1, example_state)
    \<and> children i1 = Items []
    \<and> fromConnection (JStr ''mysql'') 13 (JBool True) JUndefined example_state
        = Inr (i2, example_state)
    \<and> children i2 = Items xs
    \<and> fromConnectionGroup (Suc (Suc 0)) example_env (JStr ''mysql'') 10 (JBool True)
        (JBool True) JUndefined JUndefined example_state = Inr (i3, example_state)
    \<and> children i3 = Items ys"
proof -
  obtain i1 where r1: "fromSharingProfile (JStr ''mysql'') 16 example_state
      = Inr (i1, example_state)"
    by (simp add: fromSharingProfile_def)
  obtain i2 where r2: "fromConnection (JStr ''mysql'') 13 (JBool True) JUndefined
      example_state = Inr (i2, example_state)"
    by (simp add: fromConnection_def forEach_def fromSharingProfile_def example_props)
  obtain i3 where r3: "fromConnectionGroup (Suc (Suc 0)) example_env (JStr ''mysql'') 10
      (JBool True) (JBool True) JUndefined JUndefined example_state = Inr (i3, example_state)"
    using example_root by blast
  note c9 = children_never_null [of _ "empty_template \<lparr> t_children := Other JNull \<rparr>"
      "JStr ''mysql''" 16 example_state i1 example_state 13 "JBool True" JUndefined i2
      example_state "Suc (Suc 0)" example_env 10 "JBool True" JUndefined i3 example_state]
  from c9 have "children (GroupListItem (Some (empty_template \<lparr> t_children := Other JNull \<rparr>)))
      = Items []"
    by (simp add: empty_template_def)
  moreover from c9 r1 have "children i1 = Items []" by blast
  moreover from c9 r2 obtain xs where "children i2 = Items xs" by blast
  moreover from c9 r3 obtain ys where "children i3 = Items ys" by blast
  ultimately show ?thesis using r1 r2 r3 by blast
qed

text \<open>
  C10. A flag \<open>v\<close> other than the boolean \<^verbatim>\<open>false\<close> (\<^verbatim>\<open>undefined\<close>, \<^verbatim>\<open>null\<close>, \<^verbatim>\<open>0\<close> and the
  empty string included) acts as \<^verbatim>\<open>true\<close>: \<^verbatim>\<open>fromConnection\<close> with
  \<^verbatim>\<open>includeSharingProfiles = v\<close> and \<^verbatim>\<open>fromConnectionGroup\<close> with \<^verbatim>\<open>includeConnections = v\<close>
  return what they return with \<^verbatim>\<open>true\<close>; the item of the connection is expandable and has
  the items of its sharing profiles as children, and the children of the item of the
  group begin with the items of its child connections.
\<close>

theorem inclusion_flags_only_false_excludes:
  assumes "v \<noteq> JBool False"
  shows "fromConnection ds c v cc s = fromConnection ds c (JBool True) cc s
   \<and> fromConnectionGroup depth env ds g v isp cc ccg s
       = fromConnectionGroup depth env ds g (JBool True) isp cc ccg s
   \<and> (fromConnection ds c v cc s = Inr (item, s') \<longrightarrow>
        expandable item = JBool True
      \<and> (\<exists>ns. children item = Items ns
          \<and> (truthy (getProp s c ''sharingProfiles'') \<longrightarrow>
               (\<exists>a ps. getProp s c ''sharingProfiles'' = JRef a \<and> heap s a = Arr ps
                  \<and> list_all2 (\<lambda>p n. fromSharingProfile ds p s = Inr (n, s)) ps ns))))
   \<and> (fromConnectionGroup (Suc depth) env ds g v isp cc ccg s = Inr (gitem, s'') \<longrightarrow>
        (\<exists>cn gn. children gitem = Items (cn @ gn)
          \<and> (truthy (getProp s g ''childConnections'') \<longrightarrow>
               (\<exists>a cs. getProp s g ''childConnections'' = JRef a \<and> heap s a = Arr cs
                  \<and> list_all2 (\<lambda>c n. fromConnection ds c isp cc s = Inr (n, s)) cs cn))))"
proof (intro conjI impI)
  show "fromConnection ds c v cc s = fromConnection ds c (JBool True) cc s"
    using assms by (rule fromConnection_flag_not_false)
  show "fromConnectionGroup depth env ds g v isp cc ccg s
       = fromConnectionGroup depth env ds g (JBool True) isp cc ccg s"
    using assms by (rule fromConnectionGroup_flag_not_false)
next
  assume run: "fromConnection ds c v cc s = Inr (item, s')"
  from fromConnection_Inr [OF run] assms show "expandable item = JBool True"
    by (auto simp: item_fields)
  from fromConnection_children [OF run] assms
  show "\<exists>ns. children item = Items ns
          \<and> (truthy (getProp s c ''sharingProfiles'') \<longrightarrow>
               (\<exists>a ps. getProp s c ''sharingProfiles'' = JRef a \<and> heap s a = Arr ps
                  \<and> list_all2 (\<lambda>p n. fromSharingProfile ds p s = Inr (n, s)) ps ns))"
    by (auto split: if_splits)
next
  assume run: "fromConnectionGroup (Suc depth) env ds g v isp cc ccg s = Inr (gitem, s'')"
  from fromConnectionGroup_children [OF run] obtain cn gn where
    ch: "children gitem = Items (cn @ gn)"
    and cn: "if truthy (getProp s g ''childConnections'') \<and> v \<noteq> JBool False
        then \<exists>a cs. getProp s g ''childConnections'' = JRef a \<and> heap s a = Arr cs
               \<and> list_all2 (\<lambda>c n. fromConnection ds c isp cc s = Inr (n, s)) cs cn
        else cn = []"
    by blast
  from cn assms have "truthy (getProp s g ''childConnections'') \<longrightarrow>
               (\<exists>a cs. getProp s g ''childConnections'' = JRef a \<and> heap s a = Arr cs
                  \<and> list_all2 (\<lambda>c n. fromConnection ds c isp cc s = Inr (n, s)) cs cn)"
    by (auto split: if_splits)
  with ch show "\<exists>cn gn. children gitem = Items (cn @ gn)
          \<and> (truthy (getProp s g ''childConnections'') \<longrightarrow>
               (\<exists>a cs. getProp s g ''childConnections'' = JRef a \<and> heap s a = Arr cs
                  \<and> list_all2 (\<lambda>c n. fromConnection ds c isp cc s = Inr (n, s)) cs cn))"
    by blast
qed

theorem inclusion_flags_only_false_excludes_witness:
  "fromConnection (JStr ''mysql'') 13 JUndefined JUndefined example_state
     = fromConnection (JStr ''mysql'') 13 (JBool True) JUndefined example_state
 \<and> fromConnection (JStr ''mysql'') 13 JNull JUndefined example_state
     = fromConnection (JStr ''mysql'') 13 (JBool True) JUndefined example_state
 \<and> fromConnection (JStr ''mysql'') 13 (JNum 0) JUndefined example_state
     = fromConnection (JStr ''mysql'') 13 (JBool True) JUndefined example_state
 \<and> fromConnection (JStr ''mysql'') 13 (JStr []) JUndefined example_state
     = fromConnection (JStr ''mysql'') 13 (JBool True) JUndefined example_state
 \<and> fromConnectionGroup (Suc (Suc 0)) example_env (JStr ''mysql'') 10 JUndefined JUndefined
       JUndefined JUndefined example_state
     = fromConnectionGroup (Suc (Suc 0)) example_env (JStr ''mysql'') 10 (JBool True) JUndefined
       JUndefined JUndefined example_state
 \<and> (\<exists>item n1 n2. fromConnection (JStr ''mysql'') 13 (JNum 0) JUndefined example_state
        = Inr (item, example_state)
      \<and> expandable item = JBool True \<and> children item = Items [n1, n2])
 \<and> (\<exists>gitem n gn. fromConnectionGroup (Suc (Suc 0)) example_env (JStr ''mysql'') 10 JNull
        JUndefined JUndefined JUndefined example_state = Inr (gitem, example_state)
      \<and> children gitem = Items (n # gn)
      \<and> fromConnection (JStr ''mysql'') 13 JUndefined JUndefined example_state
          = Inr (n, example_state))"
proof -
  have u: "JUndefined \<noteq> JBool False" and n: "JNull \<noteq> JBool False"
    and z: "JNum 0 \<noteq> JBool False" and e: "JStr [] \<noteq> JBool False"
    by simp_all
  obtain item where r: "fromConnection (JStr ''mysql'') 13 (JNum 0) JUndefined example_state
      = Inr (item, example_state)"
    by (simp add: fromConnection_def forEach_def fromSharingProfile_def example_props)
  obtain gitem where rg: "fromConnectionGroup (Suc (Suc 0)) example_env (JStr ''mysql'') 10 JNull
      JUndefined JUndefined JUndefined example_state = Inr (gitem, example_state)"
    by (simp add: forEach_def fromConnection_def fromSharingProfile_def example_props)
  from inclusion_flags_only_false_excludes [OF z, THEN conjunct2, THEN conjunct2, THEN conjunct1, THEN mp, OF r]
  have "expandable item = JBool True" and "\<exists>n1 n2. children item = Items [n1, n2]"
    by (auto simp: example_props list_all2_Cons1)
  moreover
  from inclusion_flags_only_false_excludes [OF n, THEN conjunct2, THEN conjunct2, THEN conjunct2, THEN mp, OF rg]
  have "\<exists>n gn. children gitem = Items (n # gn)
      \<and> fromConnection (JStr ''mysql'') 13 JUndefined JUndefined example_state
          = Inr (n, example_state)"
    by (auto simp: example_props list_all2_Cons1)
  ultimately show ?thesis
    using inclusion_flags_only_false_excludes [OF u, THEN conjunct1, of "JStr ''mysql''" 13 JUndefined example_state]
      inclusion_flags_only_false_excludes [OF n, THEN conjunct1, of "JStr ''mysql''" 13 JUndefined example_state]
      inclusion_flags_only_false_excludes [OF z, THEN conjunct1, of "JStr ''mysql''" 13 JUndefined example_state]
      inclusion_flags_only_false_excludes [OF e, THEN conjunct1, of "JStr ''mysql''" 13 JUndefined example_state]
      inclusion_flags_only_false_excludes [OF u, THEN conjunct2, THEN conjunct1, of "Suc (Suc 0)" example_env "JStr ''mysql''"
        10 JUndefined JUndefined JUndefined example_state]
      r rg
    by blast
qed

end
